theory Spec2Isabelle
  imports
    Complex_Main
    "HOL-Library.Word"
    "HOL-Library.AList"
    "HOL-Library.Char_ord"
    "HOL-Library.List_Lexorder"
begin

section \<open>The newrelic output plugin (plugins/outputs/newrelic/newrelic.go)\<close>

text \<open>
  Conventions of the embedding.
  \<^item> A Go \<^verbatim>\<open>string\<close> is a byte sequence, here a \<^typ>\<open>string\<close>.
  \<^item> A Go \<^verbatim>\<open>float64\<close> is a \<^typ>\<open>real\<close>: rounding, infinities and NaN are outside the
    model, so every statement about totals is a statement about exact arithmetic.
  \<^item> A Go \<^verbatim>\<open>map[string]T\<close> is an association list with distinct keys, read with
    \<^const>\<open>map_of\<close> and written with \<^const>\<open>AList.update\<close> (a present key is replaced in place,
    a new key is appended). Go ranges over a map in an unspecified order; the list order
    stands for the order the runtime picked, and the theorems below speak about lookups
    and key sets, never about positions.
  \<^item> Struct fields keep their Go names; a field whose name occurs in two structs carries
    the struct's initial (\<open>n_\<close> for \<^verbatim>\<open>NewRelic\<close>, \<open>c_\<close> for \<^verbatim>\<open>NRComponent\<close>, \<open>m_\<close> for
    \<^verbatim>\<open>telegraf.Metric\<close>), and \<^verbatim>\<open>Min\<close>, \<^verbatim>\<open>Max\<close> are \<open>MinV\<close>, \<open>MaxV\<close>.
\<close>

subsection \<open>Types\<close>

record NRResponse =
  Error :: string
  Status :: string

record NRAgent =
  Host :: string
  Version :: string
  PID :: int

record NRMetric =
  Count :: int
  Total :: real
  MinV :: real
  MaxV :: real
  SumOfSquares :: real

record NRComponent =
  c_Name :: string
  c_GUID :: string
  c_Duration :: int
  c_Metrics :: "(string \<times> NRMetric) list"

record NRRequest =
  Agent :: NRAgent
  Components :: "NRComponent list"

record Aggregator =
  Tags :: string
  Component :: NRComponent

text \<open>The plugin value; \<open>n_client\<close> tells whether the \<^verbatim>\<open>*http.Client\<close> pointer is set.\<close>

record NewRelic =
  n_URL :: string
  n_License :: string
  n_GUID :: string
  n_client :: bool

text \<open>
  The dynamic types a field value (\<^verbatim>\<open>interface{}\<close>) can have: the five types the type
  switch of \<^verbatim>\<open>serialize\<close> names, and two that it does not name, an unsigned integer and
  a string. Go's \<^verbatim>\<open>int\<close> is taken as 64 bits wide.
\<close>

datatype field_value =
    VInt "64 word"
  | VInt32 "32 word"
  | VInt64 "64 word"
  | VFloat64 real
  | VBool bool
  | VUint64 "64 word"
  | VString string

text \<open>
  What the plugin reads of a \<^verbatim>\<open>telegraf.Metric\<close>: \<^verbatim>\<open>Name()\<close>, \<^verbatim>\<open>Tags()\<close>, \<^verbatim>\<open>Fields()\<close>.
  The field list is in the order in which \<^verbatim>\<open>range (*m).Fields()\<close> yields the entries.
\<close>

record Metric =
  m_Name :: string
  m_Tags :: "(string \<times> string) list"
  m_Fields :: "(string \<times> field_value) list"

datatype error =
    LicenceRequired
  | HostnameFailed string string
  | CreateRequestFailed string
  | PostFailed string
  | NilClientPanic
  | MaybeUpdateAgent int
  | AuthenticationError
  | RequestEntityTooLarge
  | ApiNotAvailable int
  | BadStatusCode int
  | BadResponseData string string
  | NewRelicError string
  | StatusNotOk string

subsection \<open>Constants\<close>

definition newrelic_api :: string where
  "newrelic_api = ''https://platform-api.newrelic.com/platform/v1/metrics''"

definition mimetype :: string where
  "mimetype = ''application/json''"

definition default_guid :: string where
  "default_guid = ''com.influxdata.telegraf''"

definition licence_header :: string where
  "licence_header = ''X-License-Key''"

definition prefix_const :: string where
  "prefix_const = ''Component/''"

subsection \<open>Sanitization\<close>

text \<open>
  \<^verbatim>\<open>strings.NewReplacer\<close> with one-byte patterns: the input is scanned once, each byte
  that is a pattern is replaced by its replacement (the first pair of the argument list
  wins), every other byte is copied.
\<close>

definition sanitizedChars :: "(char \<times> string) list" where
  "sanitizedChars =
     [(CHR ''/'', ''_''), (CHR '' '', ''''), (CHR ''%'', ''Percent''), (CHR '':'', ''_''),
      (CHR 0x5C, ''_''), (CHR ''['', ''''), (CHR '']'', ''''), (CHR ''.'', ''''),
      (CHR ''#'', ''''), (CHR ''_'', '''')]"

definition replace_byte :: "(char \<times> string) list \<Rightarrow> char \<Rightarrow> string" where
  "replace_byte r c = (case map_of r c of Some new \<Rightarrow> new | None \<Rightarrow> [c])"

definition Replace :: "(char \<times> string) list \<Rightarrow> string \<Rightarrow> string" where
  "Replace r s = concat (map (replace_byte r) s)"

subsection \<open>Canonical tag string\<close>

text \<open>Indexing a Go map: the zero value for a missing key.\<close>

definition index_tags :: "(string \<times> string) list \<Rightarrow> string \<Rightarrow> string" where
  "index_tags tags k = (case map_of tags k of Some v \<Rightarrow> v | None \<Rightarrow> '''')"

definition HasTag :: "Metric \<Rightarrow> string \<Rightarrow> bool" where
  "HasTag m k = (map_of (m_Tags m) k \<noteq> None)"

definition tag_keys :: "(string \<times> string) list \<Rightarrow> string list" where
  "tag_keys tags = sort (remdups (filter (\<lambda>k. k \<noteq> ''host'') (map fst tags)))"

fun buildTags_loop ::
  "(string \<times> string) list \<Rightarrow> nat \<Rightarrow> string list \<Rightarrow> string \<Rightarrow> string" where
  "buildTags_loop tags i [] tag_str = tag_str"
| "buildTags_loop tags i (k # keys) tag_str =
     (let tag_value =
            (if index_tags tags k = ''/'' then ''ROOT''
             else Replace sanitizedChars (index_tags tags k))
      in buildTags_loop tags (Suc i) keys
           (if i = 0 then tag_str @ tag_value else tag_str @ ''/'' @ tag_value))"

definition buildTags :: "(string \<times> string) list \<Rightarrow> string" where
  "buildTags tags = buildTags_loop tags 0 (tag_keys tags) ''''"

subsection \<open>One sample to its metrics map\<close>

fun Join :: "string list \<Rightarrow> string \<Rightarrow> string" where
  "Join [] sep = ''''"
| "Join [p] sep = p"
| "Join (p # q # ps) sep = p @ sep @ Join (q # ps) sep"

text \<open>The type switch: the value as a float, or nothing for the \<^verbatim>\<open>default\<close> branch.\<close>

fun field_float :: "field_value \<Rightarrow> real option" where
  "field_float (VInt t) = Some (real_of_int (sint t))"
| "field_float (VInt32 t) = Some (real_of_int (sint t))"
| "field_float (VInt64 t) = Some (real_of_int (sint t))"
| "field_float (VFloat64 t) = Some t"
| "field_float (VBool t) = Some (if t then 1 else 0)"
| "field_float _ = None"

definition field_path :: "string \<Rightarrow> string \<Rightarrow> string \<Rightarrow> string" where
  "field_path name tags k =
     (let parts = [Replace sanitizedChars name];
          parts = (if tags \<noteq> '''' then parts @ [tags] else parts);
          parts = parts @ [Replace sanitizedChars k]
      in prefix_const @ Join parts ''/'')"

fun serialize_loop ::
  "string \<Rightarrow> string \<Rightarrow> (string \<times> field_value) list \<Rightarrow> (string \<times> NRMetric) list
     \<Rightarrow> (string \<times> NRMetric) list" where
  "serialize_loop name tags [] values = values"
| "serialize_loop name tags ((k, v) # rest) values =
     (case field_float v of
        None \<Rightarrow> serialize_loop name tags rest values
      | Some value \<Rightarrow>
          (let mv = \<lparr>Count = 1, Total = value, MinV = value, MaxV = value,
                     SumOfSquares = value * value\<rparr>
           in serialize_loop name tags rest
                (AList.update (field_path name tags k) mv values)))"

definition serialize :: "Metric \<Rightarrow> (string \<times> NRMetric) list" where
  "serialize m = serialize_loop (m_Name m) (buildTags (m_Tags m)) (m_Fields m) []"

subsection \<open>Aggregation\<close>

fun equalsTags :: "(string \<times> Aggregator) list \<Rightarrow> Metric \<Rightarrow> bool" where
  "equalsTags [] search = False"
| "equalsTags ((name, lookup) # lookupTable) search =
     (if m_Name search = name then
        (if buildTags (m_Tags search) = Tags lookup then True
         else equalsTags lookupTable search)
      else equalsTags lookupTable search)"

text \<open>
  The body of the merging loop. Reading a missing key yields the zero metric and
  \<open>exists = False\<close>.
\<close>

definition merge_value ::
  "(string \<times> NRMetric) list \<Rightarrow> string \<times> NRMetric \<Rightarrow> (string \<times> NRMetric) list" where
  "merge_value metrics kv =
     (let k = fst kv; v = snd kv;
          exists = (map_of metrics k \<noteq> None);
          t = (case map_of metrics k of
                 Some t0 \<Rightarrow> t0
               | None \<Rightarrow> \<lparr>Count = 0, Total = 0, MinV = 0, MaxV = 0, SumOfSquares = 0\<rparr>);
          t = t\<lparr>Count := Count t + 1\<rparr>;
          t = t\<lparr>Total := Total t + Total v\<rparr>;
          t = t\<lparr>SumOfSquares := SumOfSquares t + SumOfSquares v\<rparr>;
          t = (if \<not> exists \<or> Total v > MaxV t then t\<lparr>MaxV := Total v\<rparr> else t);
          t = (if \<not> exists \<or> Total v < MinV t then t\<lparr>MinV := Total v\<rparr> else t)
      in AList.update k t metrics)"

text \<open>The body of the loop of the other branch: the entry is stored as it is.\<close>

definition store_value ::
  "(string \<times> NRMetric) list \<Rightarrow> string \<times> NRMetric \<Rightarrow> (string \<times> NRMetric) list" where
  "store_value metrics kv = AList.update (fst kv) (snd kv) metrics"

definition set_Metrics :: "Aggregator \<Rightarrow> (string \<times> NRMetric) list \<Rightarrow> Aggregator" where
  "set_Metrics a ms = a\<lparr>Component := (Component a)\<lparr>c_Metrics := ms\<rparr>\<rparr>"

text \<open>One round of the loop over the batch; \<open>request\<close> is the package variable.\<close>

definition BuildComponents_step ::
  "NewRelic \<Rightarrow> NRRequest \<Rightarrow> (string \<times> Aggregator) list \<Rightarrow> Metric
     \<Rightarrow> (string \<times> Aggregator) list" where
  "BuildComponents_step n request aggregator metric =
     (let name = m_Name metric in
      case map_of aggregator name of
        Some a \<Rightarrow>
          (if equalsTags aggregator metric then
             AList.update name
               (set_Metrics a (foldl merge_value (c_Metrics (Component a)) (serialize metric)))
               aggregator
           else
             AList.update name
               (set_Metrics a (foldl store_value (c_Metrics (Component a)) (serialize metric)))
               aggregator)
      | None \<Rightarrow>
          (let host = (if HasTag metric ''host'' then index_tags (m_Tags metric) ''host''
                       else Host (Agent request));
               c = \<lparr>c_Name = host, c_GUID = n_GUID n, c_Duration = 60,
                    c_Metrics = serialize metric\<rparr>
           in AList.update name \<lparr>Tags = buildTags (m_Tags metric), Component = c\<rparr>
                aggregator))"

definition aggregate ::
  "NewRelic \<Rightarrow> NRRequest \<Rightarrow> Metric list \<Rightarrow> (string \<times> Aggregator) list" where
  "aggregate n request metrics = foldl (BuildComponents_step n request) [] metrics"

definition BuildComponents :: "NewRelic \<Rightarrow> NRRequest \<Rightarrow> Metric list \<Rightarrow> NRComponent list" where
  "BuildComponents n request metrics = map (\<lambda>e. Component (snd e)) (aggregate n request metrics)"

subsection \<open>The wire format\<close>

text \<open>
  \<^verbatim>\<open>encoding/json\<close> is a library; what it does with the struct tags of this file is
  modelled as documented: fields are written in declaration order under their tag names,
  a field tagged \<^verbatim>\<open>omitempty\<close> is left out when it holds its zero value, a field tagged
  \<^verbatim>\<open>string\<close> is written as a JSON string holding its decimal form, a map is written as
  an object with its keys sorted, and a nil slice is written as \<^verbatim>\<open>null\<close>. Numbers stay
  values: the decimal form of a float is not modelled.
\<close>

datatype json =
    JNull
  | JString string
  | JInt int
  | JFloat real
  | JArray "json list"
  | JObject "(string \<times> json) list"

fun digits :: "nat \<Rightarrow> string" where
  "digits n =
     (if n < 10 then [''0123456789'' ! n]
      else digits (n div 10) @ [''0123456789'' ! (n mod 10)])"

declare digits.simps [simp del]

definition Itoa :: "int \<Rightarrow> string" where
  "Itoa i = (if i < 0 then ''-'' @ digits (nat (- i)) else digits (nat i))"

definition marshal_NRMetric :: "NRMetric \<Rightarrow> json" where
  "marshal_NRMetric m =
     JObject
       ([(''count'', JInt (Count m)), (''total'', JFloat (Total m))]
        @ (if MinV m = 0 then [] else [(''min'', JFloat (MinV m))])
        @ (if MaxV m = 0 then [] else [(''max'', JFloat (MaxV m))])
        @ (if SumOfSquares m = 0 then [] else [(''sum_of_squares'', JFloat (SumOfSquares m))]))"

definition marshal_Metrics :: "(string \<times> NRMetric) list \<Rightarrow> json" where
  "marshal_Metrics ms = JObject (map (\<lambda>e. (fst e, marshal_NRMetric (snd e))) (sort_key fst ms))"

definition marshal_NRComponent :: "NRComponent \<Rightarrow> json" where
  "marshal_NRComponent c =
     JObject
       [(''name'', JString (c_Name c)),
        (''guid'', JString (c_GUID c)),
        (''duration'', JString (Itoa (c_Duration c))),
        (''metrics'', marshal_Metrics (c_Metrics c))]"

definition marshal_NRAgent :: "NRAgent \<Rightarrow> json" where
  "marshal_NRAgent a =
     JObject
       ([(''host'', JString (Host a)), (''version'', JString (Version a))]
        @ (if PID a = 0 then [] else [(''pid'', JInt (PID a))]))"

definition marshal_NRRequest :: "NRRequest \<Rightarrow> json" where
  "marshal_NRRequest r =
     JObject
       [(''agent'', marshal_NRAgent (Agent r)),
        (''components'',
           (if Components r = [] then JNull else JArray (map marshal_NRComponent (Components r))))]"

text \<open>Reading an object: its keys, and the value under a key.\<close>

fun object_keys :: "json \<Rightarrow> string list" where
  "object_keys (JObject kvs) = map fst kvs"
| "object_keys _ = []"

fun object_get :: "json \<Rightarrow> string \<Rightarrow> json option" where
  "object_get (JObject kvs) k = map_of kvs k"
| "object_get _ k = None"

subsection \<open>Connect\<close>

text \<open>
  \<^verbatim>\<open>os.Hostname()\<close> and \<^verbatim>\<open>os.Getpid()\<close> are inputs: the name with the error it came with
  (\<open>None\<close> for \<^verbatim>\<open>nil\<close>), and the process id. The state is the plugin \<open>n\<close> and the package
  variable \<open>request\<close>; both are returned as the call leaves them.
\<close>

definition Connect ::
  "string \<times> string option \<Rightarrow> int \<Rightarrow> NewRelic \<Rightarrow> NRRequest
     \<Rightarrow> error option \<times> NewRelic \<times> NRRequest" where
  "Connect os_Hostname os_Getpid n request =
     (let n = (if n_URL n = '''' then n\<lparr>n_URL := newrelic_api\<rparr> else n) in
      if n_License n = '''' then (Some LicenceRequired, n, request)
      else
        (let n = (if n_GUID n = '''' then n\<lparr>n_GUID := default_guid\<rparr> else n);
             n = n\<lparr>n_client := True\<rparr>;
             hostname = fst os_Hostname
         in case snd os_Hostname of
              Some err \<Rightarrow> (Some (HostnameFailed hostname err), n, request)
            | None \<Rightarrow>
                (let agent = Agent request;
                     agent = agent\<lparr>PID := os_Getpid\<rparr>;
                     agent = agent\<lparr>Version := ''1.0.0''\<rparr>;
                     agent = agent\<lparr>Host := hostname\<rparr>
                 in (None, n, request\<lparr>Agent := agent\<rparr>))))"

subsection \<open>sendData and Write\<close>

record HttpRequest =
  Method :: string
  ReqURL :: string
  Header :: "(string \<times> string) list"
  ReqBody :: json

record Response =
  StatusCode :: int
  Body :: string

text \<open>
  The collaborators of \<^verbatim>\<open>sendData\<close>: the error of \<^verbatim>\<open>http.NewRequest\<close> for a URL (\<open>None\<close>
  for \<^verbatim>\<open>nil\<close>), the exchange \<^verbatim>\<open>client.Do\<close>, and \<^verbatim>\<open>ejson.Unmarshal\<close> of a body into an
  \<^verbatim>\<open>NRResponse\<close>. \<^verbatim>\<open>ejson.Marshal\<close> fails on no request of the model (it fails on NaN and
  infinities only).
\<close>

record http_env =
  NewRequest_error :: "string \<Rightarrow> string option"
  client_Do :: "HttpRequest \<Rightarrow> string + Response"
  Unmarshal :: "string \<Rightarrow> string + NRResponse"

definition build_request :: "NewRelic \<Rightarrow> NRRequest \<Rightarrow> HttpRequest" where
  "build_request n request =
     \<lparr>Method = ''POST'', ReqURL = n_URL n,
      Header = [(''Content-Type'', mimetype), (''Accept'', mimetype),
                (licence_header, n_License n)],
      ReqBody = marshal_NRRequest request\<rparr>"

text \<open>The \<^verbatim>\<open>switch\<close> on a status code outside 200..209.\<close>

definition status_error :: "int \<Rightarrow> error" where
  "status_error code =
     (if code = 400 \<or> code = 404 \<or> code = 405 then MaybeUpdateAgent code
      else if code = 403 then AuthenticationError
      else if code = 413 then RequestEntityTooLarge
      else if code = 500 \<or> code = 502 \<or> code = 503 \<or> code = 504 then ApiNotAvailable code
      else BadStatusCode code)"

text \<open>
  The result is Go's \<^verbatim>\<open>error\<close>: \<open>None\<close> for \<^verbatim>\<open>nil\<close>. Calling \<^verbatim>\<open>Do\<close> through a nil client
  pointer panics.
\<close>

definition sendData :: "http_env \<Rightarrow> NewRelic \<Rightarrow> NRRequest \<Rightarrow> error option" where
  "sendData env n request =
     (case NewRequest_error env (n_URL n) of
        Some err \<Rightarrow> Some (CreateRequestFailed err)
      | None \<Rightarrow>
          (if \<not> n_client n then Some NilClientPanic
           else case client_Do env (build_request n request) of
             Inl err \<Rightarrow> Some (PostFailed err)
           | Inr resp \<Rightarrow>
               (if StatusCode resp < 200 \<or> StatusCode resp > 209
                then Some (status_error (StatusCode resp))
                else case Unmarshal env (Body resp) of
                  Inl err \<Rightarrow> Some (BadResponseData (Body resp) err)
                | Inr nrresp \<Rightarrow>
                    (if Error nrresp \<noteq> '''' then Some (NewRelicError (Error nrresp))
                     else if Status nrresp \<noteq> ''ok'' then Some (StatusNotOk (Status nrresp))
                     else None))))"

definition Write ::
  "http_env \<Rightarrow> NewRelic \<Rightarrow> NRRequest \<Rightarrow> Metric list \<Rightarrow> error option \<times> NRRequest" where
  "Write env n request metrics =
     (if length metrics = 0 then (None, request)
      else
        (let components = BuildComponents n request metrics;
             request = request\<lparr>Components := components\<rparr>
         in (sendData env n request, request)))"

subsection \<open>The grouping of the specification\<close>



text \<open>
  The values that the samples of a batch contribute to a path, one per sample that has a
  field of that path, in batch order; and the statistics the specification asks of a
  non-empty list of contributed values.
\<close>

definition contributed :: "Metric list \<Rightarrow> string \<Rightarrow> real list" where
  "contributed metrics p =
     concat (map (\<lambda>m. case map_of (serialize m) p of Some v \<Rightarrow> [Total v] | None \<Rightarrow> []) metrics)"

definition spec_stat :: "real list \<Rightarrow> NRMetric" where
  "spec_stat xs =
     \<lparr>Count = int (length xs), Total = sum_list xs, MinV = Min (set xs), MaxV = Max (set xs),
      SumOfSquares = sum_list (map (\<lambda>x. x * x) xs)\<rparr>"

text \<open>The entry of a path: none without a contribution.\<close>

definition stat_of :: "real list \<Rightarrow> NRMetric option" where
  "stat_of xs = (if xs = [] then None else Some (spec_stat xs))"

text \<open>A metric that stands for one value.\<close>

definition single :: "NRMetric \<Rightarrow> bool" where
  "single v = (v = spec_stat [Total v])"

text \<open>The bytes that no sanitized string contains.\<close>

definition removed_bytes :: "char set" where
  "removed_bytes =
     {CHR ''/'', CHR '' '', CHR ''%'', CHR '':'', CHR 0x5C, CHR ''['', CHR '']'', CHR ''.'',
      CHR ''#''}"

subsection \<open>Fixtures of newrelic_test.go\<close>

definition test_plugin :: NewRelic where
  "test_plugin =
     \<lparr>n_URL = newrelic_api, n_License = ''dummy'', n_GUID = ''test.sonica.telegraf'',
      n_client = True\<rparr>"

definition test_request :: NRRequest where
  "test_request =
     \<lparr>Agent = \<lparr>Host = ''testhostname'', Version = ''1.0.0'', PID = 42\<rparr>, Components = []\<rparr>"

definition sample :: "string \<Rightarrow> string \<Rightarrow> string \<Rightarrow> real \<Rightarrow> Metric" where
  "sample name tagvalue key x =
     \<lparr>m_Name = name, m_Tags = [(''tag1'', tagvalue)], m_Fields = [(key, VFloat64 x)]\<rparr>"

definition test_metric ::
  "string \<Rightarrow> string \<Rightarrow> string \<Rightarrow> string \<Rightarrow> real \<Rightarrow> string \<Rightarrow> real \<Rightarrow> Metric" where
  "test_metric name tag tagvalue k1 x1 k2 x2 =
     \<lparr>m_Name = name, m_Tags = [(tag, tagvalue)],
      m_Fields = [(k1, VFloat64 x1), (k2, VFloat64 x2)]\<rparr>"

definition m1 :: Metric where
  "m1 = test_metric ''m1'' ''tag1'' ''tagvalue1'' ''value1'' 3 ''value2'' 4"

definition m2 :: Metric where
  "m2 = test_metric ''m2'' ''tag2'' ''tagvalue2'' ''v1'' 6 ''v2'' 8"

definition m3 :: Metric where
  "m3 = test_metric ''m1'' ''tag1'' ''tagvalue1'' ''value1'' 2 ''value2'' 9"

definition m4 :: Metric where
  "m4 = test_metric ''m1'' ''tag1'' ''tagvalue2'' ''value1'' 1 ''value2'' 2"

definition m5 :: Metric where
  "m5 = test_metric ''m1'' ''tag1'' ''tagvalue1'' ''asdf1'' 3 ''asdf2'' 4"

definition responseOK :: string where
  "responseOK = ''{\"status\": \"ok\"}''"

definition responseForceError :: string where
  "responseForceError = ''{\"error\":\"force error\"}''"

text \<open>
  A stand-in for the test server and the JSON reader: every URL is well formed, the
  exchange answers with the given status code and body, and the two bodies of the test
  file decode as a JSON reader decodes them.
\<close>

definition test_unmarshal :: "string \<Rightarrow> string + NRResponse" where
  "test_unmarshal body =
     (if body = responseOK then Inr \<lparr>Error = '''', Status = ''ok''\<rparr>
      else if body = responseForceError then Inr \<lparr>Error = ''force error'', Status = ''''\<rparr>
      else Inl ''unexpected end of JSON input'')"

definition test_env :: "int \<Rightarrow> string \<Rightarrow> http_env" where
  "test_env code body =
     \<lparr>NewRequest_error = (\<lambda>url. None),
      client_Do = (\<lambda>req. Inr \<lparr>StatusCode = code, Body = body\<rparr>),
      Unmarshal = test_unmarshal\<rparr>"

text \<open>Two samples of one name that differ in their "host" tag only.\<close>

definition host_sample :: "string \<Rightarrow> real \<Rightarrow> Metric" where
  "host_sample host x =
     \<lparr>m_Name = ''m1'', m_Tags = [(''host'', host), (''tag1'', ''tagvalue1'')],
      m_Fields = [(''value1'', VFloat64 x)]\<rparr>"

lemmas eval_defs =
  BuildComponents_def aggregate_def BuildComponents_step_def serialize_def buildTags_def
  tag_keys_def index_tags_def Replace_def replace_byte_def sanitizedChars_def field_path_def
  prefix_const_def HasTag_def merge_value_def store_value_def set_Metrics_def sample_def
  test_plugin_def test_request_def host_sample_def Let_def

lemmas fixture_defs = m1_def m2_def m3_def m4_def m5_def test_metric_def

section \<open>The model against the repository's test\<close>

text \<open>
  TestMultiplyWrite sends the batch m1, m2, m3, m4, m5 and expects two components: one
  for "m1", holding the paths of both tag values, and one for "m2". The model yields them.
\<close>

lemma TestMultiplyWrite_components:
  "BuildComponents test_plugin test_request [m1, m2, m3, m4, m5] =
   [\<lparr>c_Name = ''testhostname'', c_GUID = ''test.sonica.telegraf'', c_Duration = 60,
     c_Metrics =
       [(''Component/m1/tagvalue1/value1'',
         \<lparr>Count = 2, Total = 5, MinV = 2, MaxV = 3, SumOfSquares = 13\<rparr>),
        (''Component/m1/tagvalue1/value2'',
         \<lparr>Count = 2, Total = 13, MinV = 4, MaxV = 9, SumOfSquares = 97\<rparr>),
        (''Component/m1/tagvalue2/value1'',
         \<lparr>Count = 1, Total = 1, MinV = 1, MaxV = 1, SumOfSquares = 1\<rparr>),
        (''Component/m1/tagvalue2/value2'',
         \<lparr>Count = 1, Total = 2, MinV = 2, MaxV = 2, SumOfSquares = 4\<rparr>),
        (''Component/m1/tagvalue1/asdf1'',
         \<lparr>Count = 1, Total = 3, MinV = 3, MaxV = 3, SumOfSquares = 9\<rparr>),
        (''Component/m1/tagvalue1/asdf2'',
         \<lparr>Count = 1, Total = 4, MinV = 4, MaxV = 4, SumOfSquares = 16\<rparr>)]\<rparr>,
    \<lparr>c_Name = ''testhostname'', c_GUID = ''test.sonica.telegraf'', c_Duration = 60,
     c_Metrics =
       [(''Component/m2/tagvalue2/v1'',
         \<lparr>Count = 1, Total = 6, MinV = 6, MaxV = 6, SumOfSquares = 36\<rparr>),
        (''Component/m2/tagvalue2/v2'',
         \<lparr>Count = 1, Total = 8, MinV = 8, MaxV = 8, SumOfSquares = 64\<rparr>)]\<rparr>]"
  by (simp add: eval_defs fixture_defs)

section \<open>Auxiliary facts\<close>

lemma update_set:
  "e \<in> set (AList.update k v al) \<Longrightarrow> e = (k, v) \<or> e \<in> set al"
  by (induction al) (auto split: if_splits)

lemma set_Metrics_twice [simp]: "set_Metrics (set_Metrics a x) y = set_Metrics a y"
  by (simp add: set_Metrics_def)

lemma set_Metrics_same [simp]: "set_Metrics a (c_Metrics (Component a)) = a"
  by (simp add: set_Metrics_def)

lemma set_Metrics_explicit:
  "set_Metrics a ms =
     \<lparr>Tags = Tags a,
      Component =
        \<lparr>c_Name = c_Name (Component a), c_GUID = c_GUID (Component a),
         c_Duration = c_Duration (Component a), c_Metrics = ms\<rparr>\<rparr>"
  by (simp add: set_Metrics_def)

section \<open>Components and groups\<close>

subsection \<open>The keys of the lookup table\<close>







section \<open>Statistics of a group\<close>

subsection \<open>The merging branch\<close>

lemma single_new: "single \<lparr>Count = 1, Total = y, MinV = y, MaxV = y, SumOfSquares = y * y\<rparr>"
  by (simp add: single_def spec_stat_def)

lemma serialize_loop_single:
  "\<forall>e \<in> set acc. single (snd e) \<Longrightarrow>
     \<forall>e \<in> set (serialize_loop name tags fs acc). single (snd e)"
proof (induction fs arbitrary: acc)
  case Nil
  then show ?case by simp
next
  case (Cons f fs)
  obtain k v where f: "f = (k, v)" by (cases f)
  show ?case
  proof (cases "field_float v")
    case None
    with Cons f show ?thesis by simp
  next
    case (Some y)
    have "\<forall>e \<in> set (AList.update (field_path name tags k)
        \<lparr>Count = 1, Total = y, MinV = y, MaxV = y, SumOfSquares = y * y\<rparr> acc). single (snd e)"
      using Cons.prems single_new by (auto dest!: update_set)
    from Cons.IH [OF this] Some f show ?thesis by (simp add: Let_def)
  qed
qed

lemma serialize_single: "map_of (serialize m) p = Some v \<Longrightarrow> single v"
  using serialize_loop_single [of "[]" "m_Name m" "buildTags (m_Tags m)" "m_Fields m"]
  by (auto simp: serialize_def dest!: map_of_SomeD)

lemma serialize_loop_distinct:
  "distinct (map fst acc) \<Longrightarrow> distinct (map fst (serialize_loop name tags fs acc))"
proof (induction fs arbitrary: acc)
  case Nil
  then show ?case by simp
next
  case (Cons f fs)
  obtain k v where f: "f = (k, v)" by (cases f)
  show ?case
    using Cons.IH [OF Cons.prems]
      Cons.IH [OF distinct_update [OF Cons.prems]] f
    by (cases "field_float v") (simp_all add: Let_def)
qed

lemma serialize_distinct: "distinct (map fst (serialize m))"
  using serialize_loop_distinct [of "[]"] by (simp add: serialize_def)

text \<open>The outcome of one merge, key by key.\<close>

lemma map_of_merge_value:
  "map_of (merge_value acc (k, v)) p =
     (if p = k then
        (case map_of acc k of
           None \<Rightarrow> Some \<lparr>Count = 1, Total = Total v, MinV = Total v, MaxV = Total v,
                          SumOfSquares = SumOfSquares v\<rparr>
         | Some t \<Rightarrow> Some \<lparr>Count = Count t + 1, Total = Total t + Total v,
                            MinV = (if Total v < MinV t then Total v else MinV t),
                            MaxV = (if Total v > MaxV t then Total v else MaxV t),
                            SumOfSquares = SumOfSquares t + SumOfSquares v\<rparr>)
      else map_of acc p)"
  by (cases "map_of acc k") (auto simp: merge_value_def Let_def update_conv')

lemma merge_stat:
  assumes "single v"
  shows "(case stat_of xs of
           None \<Rightarrow> Some \<lparr>Count = 1, Total = Total v, MinV = Total v, MaxV = Total v,
                          SumOfSquares = SumOfSquares v\<rparr>
         | Some t \<Rightarrow> Some \<lparr>Count = Count t + 1, Total = Total t + Total v,
                            MinV = (if Total v < MinV t then Total v else MinV t),
                            MaxV = (if Total v > MaxV t then Total v else MaxV t),
                            SumOfSquares = SumOfSquares t + SumOfSquares v\<rparr>)
         = stat_of (xs @ [Total v])"
proof (cases "xs = []")
  case True
  have "SumOfSquares v = Total v * Total v"
    using assms by (cases v) (simp add: single_def spec_stat_def)
  with True show ?thesis by (simp add: stat_of_def spec_stat_def)
next
  case False
  have sq: "SumOfSquares v = Total v * Total v"
    using assms by (cases v) (simp add: single_def spec_stat_def)
  have gen_mx: "(if a > M then a else M) = max a M" for a M :: real
    by (simp add: max_def)
  have gen_mn: "(if a < M then a else M) = min a M" for a M :: real
    by (simp add: min_def)
  have fin: "finite (set xs)" and ne: "set xs \<noteq> {}"
    using False by simp_all
  have mx: "(if Total v > Max (set xs) then Total v else Max (set xs)) =
      Max (insert (Total v) (set xs))"
    unfolding gen_mx Max_insert [OF fin ne] ..
  have mn: "(if Total v < Min (set xs) then Total v else Min (set xs)) =
      Min (insert (Total v) (set xs))"
    unfolding gen_mn Min_insert [OF fin ne] ..
  have s: "stat_of xs = Some (spec_stat xs)"
    using False by (simp add: stat_of_def)
  have sel: "Count (spec_stat xs) = int (length xs)" "Total (spec_stat xs) = sum_list xs"
    "MinV (spec_stat xs) = Min (set xs)" "MaxV (spec_stat xs) = Max (set xs)"
    "SumOfSquares (spec_stat xs) = sum_list (map (\<lambda>x. x * x) xs)"
    by (simp_all add: spec_stat_def)
  have r: "stat_of (xs @ [Total v]) =
      Some \<lparr>Count = int (length xs) + 1, Total = sum_list xs + Total v,
            MinV = Min (insert (Total v) (set xs)), MaxV = Max (insert (Total v) (set xs)),
            SumOfSquares = sum_list (map (\<lambda>x. x * x) xs) + Total v * Total v\<rparr>"
    by (simp add: stat_of_def spec_stat_def del: Max_insert Min_insert)
  show ?thesis
    unfolding s option.case sel mx mn sq r ..
qed


lemma fold_merge_value:
  "distinct (map fst s) \<Longrightarrow>
     map_of (foldl merge_value acc s) p =
       (case map_of s p of None \<Rightarrow> map_of acc p
        | Some v \<Rightarrow> map_of (merge_value acc (p, v)) p)"
proof (induction s arbitrary: acc)
  case Nil
  then show ?case by simp
next
  case (Cons e s)
  obtain k v where e: "e = (k, v)" by (cases e)
  from Cons.prems e have d: "distinct (map fst s)" and k: "k \<notin> fst ` set s"
    by auto
  from k have none: "map_of s k = None"
    by (simp add: map_of_eq_None_iff)
  show ?case
  proof (cases "p = k")
    case True
    with Cons.IH [OF d, of "merge_value acc (k, v)"] none e show ?thesis
      by simp
  next
    case False
    with Cons.IH [OF d, of "merge_value acc (k, v)"] e show ?thesis
      by (auto simp: map_of_merge_value split: option.splits)
  qed
qed

lemma merge_sample:
  assumes "map_of acc p = stat_of xs"
  shows "map_of (foldl merge_value acc (serialize m)) p =
     stat_of (xs @ (case map_of (serialize m) p of Some v \<Rightarrow> [Total v] | None \<Rightarrow> []))"
proof (cases "map_of (serialize m) p")
  case None
  with assms show ?thesis
    by (simp add: fold_merge_value [OF serialize_distinct])
next
  case (Some v)
  from merge_stat [OF serialize_single [OF Some], of xs] Some assms show ?thesis
    by (simp add: fold_merge_value [OF serialize_distinct] map_of_merge_value)
qed

lemma merge_samples:
  "map_of acc p = stat_of xs \<Longrightarrow>
     map_of (foldl (\<lambda>a m. foldl merge_value a (serialize m)) acc ms) p =
       stat_of (xs @ contributed ms p)"
proof (induction ms arbitrary: acc xs)
  case Nil
  then show ?case by (simp add: contributed_def)
next
  case (Cons m ms)
  from Cons.IH [OF merge_sample [OF Cons.prems, of m]] show ?case
    by (simp add: contributed_def)
qed

lemma step_uniform:
  assumes "m_Name m = nm" and "buildTags (m_Tags m) = Tags a"
  shows "BuildComponents_step n request [(nm, a)] m =
     [(nm, set_Metrics a (foldl merge_value (c_Metrics (Component a)) (serialize m)))]"
  using assms by (simp add: BuildComponents_step_def)

lemma fold_uniform:
  "\<forall>m \<in> set ms. m_Name m = nm \<and> buildTags (m_Tags m) = Tags a \<Longrightarrow>
     foldl (BuildComponents_step n request) [(nm, a)] ms =
       [(nm, set_Metrics a
          (foldl (\<lambda>acc m. foldl merge_value acc (serialize m)) (c_Metrics (Component a)) ms))]"
proof (induction ms arbitrary: a)
  case Nil
  then show ?case by simp
next
  case (Cons m ms)
  let ?a = "set_Metrics a (foldl merge_value (c_Metrics (Component a)) (serialize m))"
  have t: "Tags ?a = Tags a" and c: "c_Metrics (Component ?a) =
      foldl merge_value (c_Metrics (Component a)) (serialize m)"
    by (simp_all add: set_Metrics_def)
  from Cons.prems have s: "BuildComponents_step n request [(nm, a)] m = [(nm, ?a)]"
    by (simp add: step_uniform)
  from Cons.prems have "\<forall>m \<in> set ms. m_Name m = nm \<and> buildTags (m_Tags m) = Tags ?a"
    unfolding t by simp
  from Cons.IH [OF this] show ?case
    unfolding foldl_Cons s c by simp
qed

lemma serialize_stat:
  "map_of (serialize m) p =
     stat_of (case map_of (serialize m) p of Some v \<Rightarrow> [Total v] | None \<Rightarrow> [])"
proof (cases "map_of (serialize m) p")
  case None
  then show ?thesis by (simp add: stat_of_def)
next
  case (Some v)
  from serialize_single [OF Some] Some show ?thesis
    by (simp add: stat_of_def single_def)
qed

text \<open>
  A batch of one group: every sample has the name and the canonical tag string of the
  first. Then there is one component, and the entry of every path holds the statistics
  of the values contributed to it: their number, sum, minimum, maximum and sum of squares.
\<close>

lemma single_group_statistics:
  assumes "\<forall>m \<in> set metrics.
      m_Name m = m_Name m0 \<and> buildTags (m_Tags m) = buildTags (m_Tags m0)"
  shows "\<exists>c. BuildComponents n request (m0 # metrics) = [c]
    \<and> (\<forall>p. map_of (c_Metrics c) p =
          (if contributed (m0 # metrics) p = [] then None
           else Some (spec_stat (contributed (m0 # metrics) p))))"
proof -
  let ?a = "\<lparr>Tags = buildTags (m_Tags m0),
             Component =
               \<lparr>c_Name = (if HasTag m0 ''host'' then index_tags (m_Tags m0) ''host''
                           else Host (Agent request)),
                c_GUID = n_GUID n, c_Duration = 60, c_Metrics = serialize m0\<rparr>\<rparr>"
  let ?ms = "foldl (\<lambda>acc m. foldl merge_value acc (serialize m)) (serialize m0) metrics"
  have first: "BuildComponents_step n request [] m0 = [(m_Name m0, ?a)]"
    by (simp add: BuildComponents_step_def Let_def)
  from assms have "\<forall>m \<in> set metrics. m_Name m = m_Name m0 \<and> buildTags (m_Tags m) = Tags ?a"
    by simp
  from fold_uniform [OF this, of n request]
  have agg: "aggregate n request (m0 # metrics) = [(m_Name m0, set_Metrics ?a ?ms)]"
    unfolding aggregate_def foldl_Cons first by simp
  have "map_of ?ms p = stat_of (contributed (m0 # metrics) p)" for p
    using merge_samples
      [where acc = "serialize m0" and p = p and ms = metrics
        and xs = "case map_of (serialize m0) p of Some v \<Rightarrow> [Total v] | None \<Rightarrow> []",
        OF serialize_stat]
    by (simp add: contributed_def)
  then have "\<forall>p. map_of (c_Metrics (Component (set_Metrics ?a ?ms))) p =
          (if contributed (m0 # metrics) p = [] then None
           else Some (spec_stat (contributed (m0 # metrics) p)))"
    by (simp add: set_Metrics_def stat_of_def)
  with agg show ?thesis
    by (simp add: BuildComponents_def)
qed

subsection \<open>A tag set that comes back\<close>

text \<open>
  C2. For all samples sharing name and tag set in one batch, the aggregated statistics of
  a field path should count the contributing samples, sum their values and bracket them
  by min and max. The code does so only for the tag set of the first sample of a name.
  A batch whose second and third sample share the name "m1" and the tags {tag1: b}, after
  a first sample named "m1" with the tags {tag1: a}: the path of the second and third
  sample ends with count 1, total 3, min 3, max 3, the statistics of the third sample
  alone. The same two samples as a batch of their own are merged: count 2, total 5,
  min 2, max 3.
\<close>

theorem later_tagset_not_merged:
  "BuildComponents test_plugin test_request
     [sample ''m1'' ''a'' ''value1'' 1, sample ''m1'' ''b'' ''value1'' 2,
      sample ''m1'' ''b'' ''value1'' 3] =
   [\<lparr>c_Name = ''testhostname'', c_GUID = ''test.sonica.telegraf'', c_Duration = 60,
     c_Metrics =
       [(''Component/m1/a/value1'',
         \<lparr>Count = 1, Total = 1, MinV = 1, MaxV = 1, SumOfSquares = 1\<rparr>),
        (''Component/m1/b/value1'',
         \<lparr>Count = 1, Total = 3, MinV = 3, MaxV = 3, SumOfSquares = 9\<rparr>)]\<rparr>]
   \<and> BuildComponents test_plugin test_request
     [sample ''m1'' ''b'' ''value1'' 2, sample ''m1'' ''b'' ''value1'' 3] =
   [\<lparr>c_Name = ''testhostname'', c_GUID = ''test.sonica.telegraf'', c_Duration = 60,
     c_Metrics =
       [(''Component/m1/b/value1'',
         \<lparr>Count = 2, Total = 5, MinV = 2, MaxV = 3, SumOfSquares = 13\<rparr>)]\<rparr>]"
  by (simp add: eval_defs)

section \<open>Aggregation of two equal-keyed samples\<close>

text \<open>
  C4. A batch of exactly two samples, both named "m1" with the tags {tag1: tagvalue1},
  the first with the field value1 = 3 and the second with value1 = 2, yields one component
  whose metrics map has the single path "Component/m1/tagvalue1/value1", with count 2,
  total 5, min 2, max 3 and sum of squares 13, whatever the plugin and the agent identity.
\<close>

theorem two_samples_merged:
  "BuildComponents n request
     [sample ''m1'' ''tagvalue1'' ''value1'' 3, sample ''m1'' ''tagvalue1'' ''value1'' 2] =
   [\<lparr>c_Name = Host (Agent request), c_GUID = n_GUID n, c_Duration = 60,
     c_Metrics =
       [(''Component/m1/tagvalue1/value1'',
         \<lparr>Count = 2, Total = 5, MinV = 2, MaxV = 3, SumOfSquares = 13\<rparr>)]\<rparr>]"
  by (simp add: eval_defs)

theorem two_samples_merged_witness:
  "BuildComponents test_plugin test_request
     [sample ''m1'' ''tagvalue1'' ''value1'' 3, sample ''m1'' ''tagvalue1'' ''value1'' 2] =
   [\<lparr>c_Name = ''testhostname'', c_GUID = ''test.sonica.telegraf'', c_Duration = 60,
     c_Metrics =
       [(''Component/m1/tagvalue1/value1'',
         \<lparr>Count = 2, Total = 5, MinV = 2, MaxV = 3, SumOfSquares = 13\<rparr>)]\<rparr>]"
  using two_samples_merged [of test_plugin test_request]
  by (simp add: test_plugin_def test_request_def)

section \<open>What merging leaves unchanged\<close>

lemma step_frame:
  assumes "map_of aggregator name = Some a"
  shows "\<exists>ms. map_of (BuildComponents_step n request aggregator metric) name
           = Some (set_Metrics a ms)"
proof (cases "m_Name metric = name")
  case True
  with assms show ?thesis
    by (auto simp: BuildComponents_step_def Let_def update_conv')
next
  case False
  then have "map_of (BuildComponents_step n request aggregator metric) name = Some a"
    using assms
    by (auto simp: BuildComponents_step_def Let_def update_conv' split: option.splits)
  then have "map_of (BuildComponents_step n request aggregator metric) name
      = Some (set_Metrics a (c_Metrics (Component a)))"
    by simp
  then show ?thesis by blast
qed

lemma fold_frame:
  "map_of aggregator name = Some a \<Longrightarrow>
     \<exists>ms. map_of (foldl (BuildComponents_step n request) aggregator metrics) name
       = Some (set_Metrics a ms)"
proof (induction metrics arbitrary: aggregator a)
  case Nil
  then have "map_of aggregator name = Some (set_Metrics a (c_Metrics (Component a)))"
    by simp
  then show ?case unfolding foldl_Nil by blast
next
  case (Cons m metrics)
  from step_frame [OF Cons.prems] obtain ms where
    "map_of (BuildComponents_step n request aggregator m) name = Some (set_Metrics a ms)"
    by blast
  from Cons.IH [OF this] show ?case by simp
qed

lemma step_new:
  "map_of aggregator (m_Name metric) = None \<Longrightarrow>
     map_of (BuildComponents_step n request aggregator metric) (m_Name metric) =
       Some \<lparr>Tags = buildTags (m_Tags metric),
             Component =
               \<lparr>c_Name = (if HasTag metric ''host'' then index_tags (m_Tags metric) ''host''
                           else Host (Agent request)),
                c_GUID = n_GUID n, c_Duration = 60, c_Metrics = serialize metric\<rparr>\<rparr>"
  by (simp add: BuildComponents_step_def Let_def update_conv')

text \<open>
  C10. Once the lookup table holds a component under a name, running the loop over any
  further samples leaves the entry's tag string and the component's Name, GUID and
  Duration as they are: only the Metrics map changes. And a sample whose name is new
  creates the component with its effective host (its "host" tag if it has one, else the
  agent's host), the plugin's GUID and the duration 60, and these stay through all later
  samples of the batch, whatever "host" tag they carry.
\<close>

theorem component_identity_frame:
  "(map_of aggregator name = Some a \<longrightarrow>
      (\<exists>ms. map_of (foldl (BuildComponents_step n request) aggregator metrics) name =
         Some \<lparr>Tags = Tags a,
               Component =
                 \<lparr>c_Name = c_Name (Component a), c_GUID = c_GUID (Component a),
                  c_Duration = c_Duration (Component a), c_Metrics = ms\<rparr>\<rparr>))
   \<and> (map_of aggregator (m_Name metric) = None \<longrightarrow>
      (\<exists>ms. map_of (foldl (BuildComponents_step n request) aggregator (metric # metrics))
                (m_Name metric) =
         Some \<lparr>Tags = buildTags (m_Tags metric),
               Component =
                 \<lparr>c_Name = (if HasTag metric ''host'' then index_tags (m_Tags metric) ''host''
                             else Host (Agent request)),
                  c_GUID = n_GUID n, c_Duration = 60, c_Metrics = ms\<rparr>\<rparr>))"
proof (intro conjI impI)
  assume "map_of aggregator name = Some a"
  from fold_frame [OF this, of n request metrics] show
    "\<exists>ms. map_of (foldl (BuildComponents_step n request) aggregator metrics) name =
         Some \<lparr>Tags = Tags a,
               Component =
                 \<lparr>c_Name = c_Name (Component a), c_GUID = c_GUID (Component a),
                  c_Duration = c_Duration (Component a), c_Metrics = ms\<rparr>\<rparr>"
    unfolding set_Metrics_explicit .
next
  assume "map_of aggregator (m_Name metric) = None"
  from fold_frame [OF step_new [OF this], of n request n request metrics] show
    "\<exists>ms. map_of (foldl (BuildComponents_step n request) aggregator (metric # metrics))
                (m_Name metric) =
         Some \<lparr>Tags = buildTags (m_Tags metric),
               Component =
                 \<lparr>c_Name = (if HasTag metric ''host'' then index_tags (m_Tags metric) ''host''
                             else Host (Agent request)),
                  c_GUID = n_GUID n, c_Duration = 60, c_Metrics = ms\<rparr>\<rparr>"
    unfolding set_Metrics_explicit by simp
qed

theorem component_identity_frame_witness:
  "\<exists>ms. map_of (aggregate test_plugin test_request [host_sample ''h1'' 3, host_sample ''h2'' 2])
          ''m1'' =
     Some \<lparr>Tags = ''tagvalue1'',
           Component =
             \<lparr>c_Name = ''h1'', c_GUID = ''test.sonica.telegraf'', c_Duration = 60,
              c_Metrics = ms\<rparr>\<rparr>"
proof -
  have h: "map_of ([] :: (string \<times> Aggregator) list) (m_Name (host_sample ''h1'' 3)) = None"
    by simp
  have t: "buildTags (m_Tags (host_sample ''h1'' 3)) = ''tagvalue1''"
    by (simp add: eval_defs)
  have g: "HasTag (host_sample ''h1'' 3) ''host''
      \<and> index_tags (m_Tags (host_sample ''h1'' 3)) ''host'' = ''h1''
      \<and> m_Name (host_sample ''h1'' 3) = ''m1''"
    by (simp add: eval_defs)
  from component_identity_frame
      [where aggregator = "[]" and n = test_plugin and request = test_request
        and metrics = "[host_sample ''h2'' 2]" and metric = "host_sample ''h1'' 3"]
    h t g
  show ?thesis
    by (simp add: aggregate_def test_plugin_def)
qed

section \<open>Sanitization\<close>

lemma replace_byte_cases:
  "replace_byte sanitizedChars c =
     (if c = CHR ''/'' \<or> c = CHR '':'' \<or> c = CHR 0x5C then ''_''
      else if c = CHR ''%'' then ''Percent''
      else if c \<in> {CHR '' '', CHR ''['', CHR '']'', CHR ''.'', CHR ''#'', CHR ''_''} then ''''
      else [c])"
  by (simp add: replace_byte_def sanitizedChars_def)

lemma replace_byte_clean: "set (replace_byte sanitizedChars c) \<inter> removed_bytes = {}"
  unfolding replace_byte_cases by (auto simp: removed_bytes_def)

lemma Replace_clean: "set (Replace sanitizedChars s) \<inter> removed_bytes = {}"
  using replace_byte_clean by (auto simp: Replace_def)

lemma Replace_fixed:
  "set s \<inter> fst ` set sanitizedChars = {} \<Longrightarrow> Replace sanitizedChars s = s"
proof (induction s)
  case Nil
  then show ?case by (simp add: Replace_def)
next
  case (Cons c s)
  then have "map_of sanitizedChars c = None"
    by (simp add: map_of_eq_None_iff)
  with Cons show ?case by (simp add: Replace_def replace_byte_def)
qed

lemma replace_byte_pattern_free:
  "c \<notin> removed_bytes \<Longrightarrow>
     set (replace_byte sanitizedChars c) \<inter> fst ` set sanitizedChars = {}"
  unfolding replace_byte_cases by (auto simp: removed_bytes_def sanitizedChars_def)

lemma Replace_pattern_free:
  "set t \<inter> removed_bytes = {} \<Longrightarrow>
     set (Replace sanitizedChars t) \<inter> fst ` set sanitizedChars = {}"
proof (induction t)
  case Nil
  then show ?case by (simp add: Replace_def)
next
  case (Cons c t)
  then have "c \<notin> removed_bytes" by auto
  from replace_byte_pattern_free [OF this] Cons show ?case
    by (auto simp: Replace_def)
qed

lemma Replace_twice_pattern_free:
  "set (Replace sanitizedChars (Replace sanitizedChars s)) \<inter> fst ` set sanitizedChars = {}"
  by (rule Replace_pattern_free [OF Replace_clean])

lemma buildTags_loop_Join:
  "buildTags_loop tags i keys acc =
     acc @ (if keys = [] then '''' else (if i = 0 then '''' else ''/'') @
       Join (map (\<lambda>k. if index_tags tags k = ''/'' then ''ROOT''
                       else Replace sanitizedChars (index_tags tags k)) keys) ''/'')"
proof (induction keys arbitrary: i acc)
  case Nil
  then show ?case by simp
next
  case (Cons k keys)
  show ?case
  proof (cases keys)
    case Nil
    then show ?thesis by (simp add: Let_def)
  next
    case (Cons k' keys')
    then show ?thesis
      using Cons.IH [of "Suc i"] by (simp add: Let_def)
  qed
qed

lemma buildTags_Join:
  "buildTags tags =
     Join (map (\<lambda>k. if index_tags tags k = ''/'' then ''ROOT''
                     else Replace sanitizedChars (index_tags tags k)) (tag_keys tags)) ''/''"
  by (simp add: buildTags_def buildTags_loop_Join)

text \<open>
  The replacer writes "_" for "/", so a sanitized string can contain "_", and
  sanitizing it again removes that "_": the output of one pass is not a fixed point.
\<close>

theorem sanitized_underscore_counterexample:
  "Replace sanitizedChars ''a/b'' = ''a_b''
   \<and> CHR ''_'' \<in> set (Replace sanitizedChars ''a/b'')
   \<and> Replace sanitizedChars (Replace sanitizedChars ''a/b'') = ''ab''"
  by (simp add: Replace_def replace_byte_def sanitizedChars_def)

text \<open>
  C3, amended. For every input string the output of sanitization contains none of the
  characters "/", " ", "%", ":", "\", "[", "]", "." and "#"; it can contain "_", which
  the replacer writes for "/", ":" and "\". Sanitization leaves unchanged every string
  that contains none of the ten replaced characters, and the output of two passes is a
  fixed point. The canonical tag string joins, with "/" and in the order of the sorted
  keys other than "host", the sanitized tag values, where a tag value exactly equal to
  "/" is mapped to the literal string "ROOT"; so a single tag of value "/" gives "ROOT".
\<close>

theorem sanitization_properties:
  "set (Replace sanitizedChars s) \<inter>
      {CHR ''/'', CHR '' '', CHR ''%'', CHR '':'', CHR 0x5C, CHR ''['', CHR '']'', CHR ''.'',
       CHR ''#''} = {}
   \<and> (set s \<inter> fst ` set sanitizedChars = {} \<longrightarrow> Replace sanitizedChars s = s)
   \<and> Replace sanitizedChars (Replace sanitizedChars (Replace sanitizedChars s)) =
       Replace sanitizedChars (Replace sanitizedChars s)
   \<and> buildTags tags =
       Join (map (\<lambda>k. if index_tags tags k = ''/'' then ''ROOT''
                       else Replace sanitizedChars (index_tags tags k)) (tag_keys tags)) ''/''
   \<and> (k \<noteq> ''host'' \<longrightarrow> buildTags [(k, ''/'')] = ''ROOT'')"
proof (intro conjI impI)
  show "set (Replace sanitizedChars s) \<inter>
      {CHR ''/'', CHR '' '', CHR ''%'', CHR '':'', CHR 0x5C, CHR ''['', CHR '']'', CHR ''.'',
       CHR ''#''} = {}"
    using Replace_clean [of s] unfolding removed_bytes_def .
next
  assume "set s \<inter> fst ` set sanitizedChars = {}"
  then show "Replace sanitizedChars s = s" by (rule Replace_fixed)
next
  show "Replace sanitizedChars (Replace sanitizedChars (Replace sanitizedChars s)) =
       Replace sanitizedChars (Replace sanitizedChars s)"
    by (rule Replace_fixed [OF Replace_twice_pattern_free])
next
  show "buildTags tags =
       Join (map (\<lambda>k. if index_tags tags k = ''/'' then ''ROOT''
                       else Replace sanitizedChars (index_tags tags k)) (tag_keys tags)) ''/''"
    by (rule buildTags_Join)
next
  assume "k \<noteq> ''host''"
  then show "buildTags [(k, ''/'')] = ''ROOT''"
    by (simp add: buildTags_def tag_keys_def index_tags_def)
qed

theorem sanitization_properties_witness:
  "Replace sanitizedChars ''tagvalue1'' = ''tagvalue1''
   \<and> buildTags [(''tag1'', ''/'')] = ''ROOT''"
proof -
  have h: "set ''tagvalue1'' \<inter> fst ` set sanitizedChars = {}"
    by (simp add: sanitizedChars_def)
  have k: "''tag1'' \<noteq> ''host''" by simp
  from sanitization_properties [of "''tagvalue1''" "[]" "''tag1''"] h k
  show ?thesis by blast
qed

section \<open>The conversion of field values\<close>





section \<open>The wire format of a request\<close>

lemma Itoa_60: "Itoa 60 = ''60''"
  by (simp add: Itoa_def digits.simps [of 60] digits.simps [of 6])

lemma step_duration:
  assumes "\<forall>e \<in> set aggregator. c_Duration (Component (snd e)) = 60"
  shows "\<forall>e \<in> set (BuildComponents_step n request aggregator metric).
           c_Duration (Component (snd e)) = 60"
proof
  fix e
  assume e: "e \<in> set (BuildComponents_step n request aggregator metric)"
  show "c_Duration (Component (snd e)) = 60"
  proof (cases "map_of aggregator (m_Name metric)")
    case None
    with e assms show ?thesis
      by (auto simp: BuildComponents_step_def Let_def dest!: update_set)
  next
    case (Some a)
    then have "(m_Name metric, a) \<in> set aggregator" by (rule map_of_SomeD)
    with assms have "c_Duration (Component a) = 60" by fastforce
    with e Some assms show ?thesis
      by (auto simp: BuildComponents_step_def Let_def set_Metrics_def dest!: update_set
          split: if_splits)
  qed
qed

lemma fold_duration:
  "\<forall>e \<in> set aggregator. c_Duration (Component (snd e)) = 60 \<Longrightarrow>
   \<forall>e \<in> set (foldl (BuildComponents_step n request) aggregator metrics).
      c_Duration (Component (snd e)) = 60"
proof (induction metrics arbitrary: aggregator)
  case Nil
  then show ?case by simp
next
  case (Cons m metrics)
  from Cons.IH [OF step_duration [OF Cons.prems]] show ?case by simp
qed

lemma BuildComponents_duration:
  "c \<in> set (BuildComponents n request metrics) \<Longrightarrow> c_Duration c = 60"
  using fold_duration [of "[]" n request metrics]
  by (auto simp: BuildComponents_def aggregate_def)

lemma marshal_NRMetric_keys:
  "object_keys (marshal_NRMetric m) =
     [''count'', ''total''] @ (if MinV m = 0 then [] else [''min''])
       @ (if MaxV m = 0 then [] else [''max''])
       @ (if SumOfSquares m = 0 then [] else [''sum_of_squares''])"
  by (simp add: marshal_NRMetric_def)

text \<open>
  A sample whose field is 0 has min, max and sum of squares 0, and its metric object
  is written with the keys count and total only.
\<close>

theorem zero_statistics_omitted_counterexample:
  "map marshal_NRComponent
     (BuildComponents test_plugin test_request [sample ''m1'' ''tagvalue1'' ''value1'' 0]) =
   [JObject
      [(''name'', JString ''testhostname''), (''guid'', JString ''test.sonica.telegraf''),
       (''duration'', JString ''60''),
       (''metrics'',
        JObject [(''Component/m1/tagvalue1/value1'',
                  JObject [(''count'', JInt 1), (''total'', JFloat 0)])])]]"
  by (simp add: eval_defs marshal_NRComponent_def marshal_Metrics_def marshal_NRMetric_def
      Itoa_60)

text \<open>
  C6, amended. For every aggregated request, the serialized JSON encodes each
  component's duration as the string "60", not as a number, and the component's metrics
  object has one metric object per path of the component. Each metric object contains
  the keys count and total; it contains min, max and sum_of_squares exactly when the
  respective statistic is not zero, for the three are written as optional.
\<close>

theorem wire_format:
  assumes "c \<in> set (BuildComponents n request metrics)"
  shows "object_get (marshal_NRComponent c) ''duration'' = Some (JString ''60'')
    \<and> (\<exists>kvs. object_get (marshal_NRComponent c) ''metrics'' = Some (JObject kvs)
          \<and> fst ` set kvs = fst ` set (c_Metrics c)
          \<and> (\<forall>e \<in> set kvs. \<exists>m. (fst e, m) \<in> set (c_Metrics c)
                \<and> snd e = marshal_NRMetric m
                \<and> ''count'' \<in> set (object_keys (snd e))
                \<and> ''total'' \<in> set (object_keys (snd e))
                \<and> (''min'' \<in> set (object_keys (snd e))) = (MinV m \<noteq> 0)
                \<and> (''max'' \<in> set (object_keys (snd e))) = (MaxV m \<noteq> 0)
                \<and> (''sum_of_squares'' \<in> set (object_keys (snd e))) = (SumOfSquares m \<noteq> 0)))"
proof -
  have d: "object_get (marshal_NRComponent c) ''duration'' = Some (JString ''60'')"
    using BuildComponents_duration [OF assms] by (simp add: marshal_NRComponent_def Itoa_60)
  let ?kvs = "map (\<lambda>e. (fst e, marshal_NRMetric (snd e))) (sort_key fst (c_Metrics c))"
  have g: "object_get (marshal_NRComponent c) ''metrics'' = Some (JObject ?kvs)"
    by (simp add: marshal_NRComponent_def marshal_Metrics_def)
  have k: "fst ` set ?kvs = fst ` set (c_Metrics c)"
    by (simp add: image_image)
  have a: "\<forall>e \<in> set ?kvs. \<exists>m. (fst e, m) \<in> set (c_Metrics c)
                \<and> snd e = marshal_NRMetric m
                \<and> ''count'' \<in> set (object_keys (snd e))
                \<and> ''total'' \<in> set (object_keys (snd e))
                \<and> (''min'' \<in> set (object_keys (snd e))) = (MinV m \<noteq> 0)
                \<and> (''max'' \<in> set (object_keys (snd e))) = (MaxV m \<noteq> 0)
                \<and> (''sum_of_squares'' \<in> set (object_keys (snd e))) = (SumOfSquares m \<noteq> 0)"
  proof
    fix e
    assume "e \<in> set ?kvs"
    then obtain p m where pm: "(p, m) \<in> set (c_Metrics c)" and e: "e = (p, marshal_NRMetric m)"
      by auto
    show "\<exists>m. (fst e, m) \<in> set (c_Metrics c)
                \<and> snd e = marshal_NRMetric m
                \<and> ''count'' \<in> set (object_keys (snd e))
                \<and> ''total'' \<in> set (object_keys (snd e))
                \<and> (''min'' \<in> set (object_keys (snd e))) = (MinV m \<noteq> 0)
                \<and> (''max'' \<in> set (object_keys (snd e))) = (MaxV m \<noteq> 0)
                \<and> (''sum_of_squares'' \<in> set (object_keys (snd e))) = (SumOfSquares m \<noteq> 0)"
      by (rule exI [of _ m]) (simp add: e pm marshal_NRMetric_keys)
  qed
  from d g k a show ?thesis by blast
qed

theorem wire_format_witness:
  "object_get
     (marshal_NRComponent
        \<lparr>c_Name = ''testhostname'', c_GUID = ''test.sonica.telegraf'', c_Duration = 60,
         c_Metrics =
           [(''Component/m1/tagvalue1/value1'',
             \<lparr>Count = 2, Total = 5, MinV = 2, MaxV = 3, SumOfSquares = 13\<rparr>)]\<rparr>)
     ''duration'' = Some (JString ''60'')"
proof -
  have h: "\<lparr>c_Name = ''testhostname'', c_GUID = ''test.sonica.telegraf'', c_Duration = 60,
         c_Metrics =
           [(''Component/m1/tagvalue1/value1'',
             \<lparr>Count = 2, Total = 5, MinV = 2, MaxV = 3, SumOfSquares = 13\<rparr>)]\<rparr>
      \<in> set (BuildComponents test_plugin test_request
          [sample ''m1'' ''tagvalue1'' ''value1'' 3, sample ''m1'' ''tagvalue1'' ''value1'' 2])"
    by (simp add: eval_defs)
  from wire_format [OF h] show ?thesis by blast
qed

section \<open>The outcome of sendData\<close>

text \<open>
  C7. When the request could be built and the exchange returned a response, sendData
  classifies the status code: 400, 404 and 405 give the "maybe update agent" error (a
  client or version mismatch); 403 gives the authentication error; 413 gives the
  "request entity too large" error; 500, 502, 503 and 504 give the "API not available"
  error; every other code outside 200..209 gives the bad-status error; a code within
  200..209 goes on to the body check, whose outcome then decides alone. With a code
  outside 200..209 the result is reached before the body is parsed: it is the same
  whatever the body holds and whatever the JSON reader would do with it.
\<close>

theorem status_classification:
  assumes "NewRequest_error env (n_URL n) = None" and "n_client n"
    and "client_Do env (build_request n request) = Inr resp"
  shows "(StatusCode resp \<in> {400, 404, 405} \<longrightarrow>
            sendData env n request = Some (MaybeUpdateAgent (StatusCode resp)))
    \<and> (StatusCode resp = 403 \<longrightarrow> sendData env n request = Some AuthenticationError)
    \<and> (StatusCode resp = 413 \<longrightarrow> sendData env n request = Some RequestEntityTooLarge)
    \<and> (StatusCode resp \<in> {500, 502, 503, 504} \<longrightarrow>
            sendData env n request = Some (ApiNotAvailable (StatusCode resp)))
    \<and> ((StatusCode resp < 200 \<or> 209 < StatusCode resp)
          \<and> StatusCode resp \<notin> {400, 403, 404, 405, 413, 500, 502, 503, 504} \<longrightarrow>
            sendData env n request = Some (BadStatusCode (StatusCode resp)))
    \<and> (200 \<le> StatusCode resp \<and> StatusCode resp \<le> 209 \<longrightarrow>
          (sendData env n request = None) =
          (\<exists>r. Unmarshal env (Body resp) = Inr r \<and> Error r = '''' \<and> Status r = ''ok''))
    \<and> (StatusCode resp < 200 \<or> 209 < StatusCode resp \<longrightarrow>
          (\<forall>u b. sendData
                   (env\<lparr>client_Do := (\<lambda>req. Inr (resp\<lparr>Body := b\<rparr>)), Unmarshal := u\<rparr>)
                   n request =
                 sendData env n request))"
  using assms by (auto simp: sendData_def status_error_def split: sum.splits)

theorem status_classification_witness:
  "sendData (test_env 403 '''') test_plugin test_request = Some AuthenticationError
   \<and> sendData (test_env 404 '''') test_plugin test_request = Some (MaybeUpdateAgent 404)
   \<and> sendData (test_env 413 '''') test_plugin test_request = Some RequestEntityTooLarge
   \<and> sendData (test_env 503 '''') test_plugin test_request = Some (ApiNotAvailable 503)
   \<and> sendData (test_env 401 '''') test_plugin test_request = Some (BadStatusCode 401)"
proof -
  have a: "NewRequest_error (test_env code body) (n_URL test_plugin) = None" for code body
    by (simp add: test_env_def)
  have b: "n_client test_plugin" by (simp add: test_plugin_def)
  have c: "client_Do (test_env code body) (build_request test_plugin test_request) =
      Inr \<lparr>StatusCode = code, Body = body\<rparr>" for code body
    by (simp add: test_env_def)
  from status_classification [OF a b c, of 403 "''''"]
    status_classification [OF a b c, of 404 "''''"]
    status_classification [OF a b c, of 413 "''''"]
    status_classification [OF a b c, of 503 "''''"]
    status_classification [OF a b c, of 401 "''''"]
  show ?thesis by simp
qed

text \<open>
  C8. On an accepted status (200..209), sendData parses the response body into its error
  and status fields: a body whose error field is not empty yields the failure that
  carries that message; a body whose status field is not "ok" yields a failure (the
  status failure, when the error field is empty); a body that is not well-formed JSON
  yields the bad-response failure; and a response of status 200 whose body decodes to
  an empty error and the status "ok" yields success.
\<close>

theorem body_check:
  assumes "NewRequest_error env (n_URL n) = None" and "n_client n"
    and "client_Do env (build_request n request) = Inr resp"
    and "200 \<le> StatusCode resp" and "StatusCode resp \<le> 209"
  shows "(\<forall>r. Unmarshal env (Body resp) = Inr r \<and> Error r \<noteq> '''' \<longrightarrow>
            sendData env n request = Some (NewRelicError (Error r)))
    \<and> (\<forall>r. Unmarshal env (Body resp) = Inr r \<and> Status r \<noteq> ''ok'' \<longrightarrow>
            sendData env n request \<noteq> None)
    \<and> (\<forall>r. Unmarshal env (Body resp) = Inr r \<and> Error r = '''' \<and> Status r \<noteq> ''ok'' \<longrightarrow>
            sendData env n request = Some (StatusNotOk (Status r)))
    \<and> (\<forall>e. Unmarshal env (Body resp) = Inl e \<longrightarrow>
            sendData env n request = Some (BadResponseData (Body resp) e))
    \<and> (StatusCode resp = 200
          \<and> Unmarshal env (Body resp) = Inr \<lparr>Error = '''', Status = ''ok''\<rparr> \<longrightarrow>
            sendData env n request = None)"
  using assms by (auto simp: sendData_def split: sum.splits)

theorem body_check_witness:
  "sendData (test_env 200 responseOK) test_plugin test_request = None
   \<and> sendData (test_env 200 responseForceError) test_plugin test_request =
       Some (NewRelicError ''force error'')
   \<and> sendData (test_env 200 '''') test_plugin test_request =
       Some (BadResponseData '''' ''unexpected end of JSON input'')"
proof -
  have a: "NewRequest_error (test_env 200 body) (n_URL test_plugin) = None" for body
    by (simp add: test_env_def)
  have b: "n_client test_plugin" by (simp add: test_plugin_def)
  have c: "client_Do (test_env 200 body) (build_request test_plugin test_request) =
      Inr \<lparr>StatusCode = 200, Body = body\<rparr>" for body
    by (simp add: test_env_def)
  have d: "(200::int) \<le> StatusCode \<lparr>StatusCode = 200, Body = body\<rparr>
      \<and> StatusCode \<lparr>StatusCode = 200, Body = body\<rparr> \<le> 209" for body :: string
    by simp
  have u: "Unmarshal (test_env 200 body) = test_unmarshal" for body
    by (simp add: test_env_def)
  have ok: "test_unmarshal responseOK = Inr \<lparr>Error = '''', Status = ''ok''\<rparr>"
    by (simp add: test_unmarshal_def)
  have fe: "test_unmarshal responseForceError = Inr \<lparr>Error = ''force error'', Status = ''''\<rparr>"
    by (simp add: test_unmarshal_def responseOK_def responseForceError_def)
  have em: "test_unmarshal '''' = Inl ''unexpected end of JSON input''"
    by (simp add: test_unmarshal_def responseOK_def responseForceError_def)
  note t = body_check [OF a b c conjunct1 [OF d] conjunct2 [OF d]]
  from t [of responseOK] t [of responseForceError] t [of "''''"] u ok fe em
  show ?thesis by simp
qed

section \<open>The state after a failed Connect\<close>

text \<open>
  A plugin with no URL and no licence: Connect fails, and the plugin's URL is no
  longer what it was before the call.
\<close>

theorem connect_failure_state_counterexample:
  "Connect (''testhostname'', None) 42
     \<lparr>n_URL = '''', n_License = '''', n_GUID = '''', n_client = False\<rparr> test_request =
   (Some LicenceRequired,
    \<lparr>n_URL = ''https://platform-api.newrelic.com/platform/v1/metrics'', n_License = '''',
     n_GUID = '''', n_client = False\<rparr>,
    test_request)"
  by (simp add: Connect_def newrelic_api_def)

text \<open>
  C9, amended. Connect called with an empty licence fails before any network activity:
  the result does not depend on the host name or the process id, and no HTTP client is
  created. On any connect-time configuration error (missing licence or failed host-name
  resolution) the agent identity and the licence are unchanged from before the call.
  The rest of the plugin's configuration is not rolled back: an empty URL has been
  replaced by the default URL, and on a failed host-name resolution an empty GUID has
  been replaced by the default GUID and the HTTP client has been created.
\<close>

theorem connect_failure_state:
  "(n_License n = '''' \<longrightarrow>
      Connect h pid n request =
        (Some LicenceRequired,
         n\<lparr>n_URL := (if n_URL n = '''' then newrelic_api else n_URL n)\<rparr>, request))
   \<and> (fst (Connect h pid n request) \<noteq> None \<longrightarrow>
        snd (snd (Connect h pid n request)) = request
        \<and> n_License (fst (snd (Connect h pid n request))) = n_License n)
   \<and> (n_License n \<noteq> '''' \<and> snd h = Some err \<longrightarrow>
        Connect h pid n request =
          (Some (HostnameFailed (fst h) err),
           \<lparr>n_URL = (if n_URL n = '''' then newrelic_api else n_URL n),
            n_License = n_License n,
            n_GUID = (if n_GUID n = '''' then default_guid else n_GUID n),
            n_client = True\<rparr>, request))"
  by (auto simp: Connect_def Let_def split: option.splits)

theorem connect_failure_state_witness:
  "Connect (''testhostname'', None) 42
     \<lparr>n_URL = ''http://127.0.0.1'', n_License = '''', n_GUID = '''', n_client = False\<rparr>
     test_request =
   (Some LicenceRequired,
    \<lparr>n_URL = ''http://127.0.0.1'', n_License = '''', n_GUID = '''', n_client = False\<rparr>,
    test_request)
   \<and> Connect ('''', Some ''no hostname'') 42
     \<lparr>n_URL = '''', n_License = ''dummy'', n_GUID = '''', n_client = False\<rparr> test_request =
   (Some (HostnameFailed '''' ''no hostname''),
    \<lparr>n_URL = newrelic_api, n_License = ''dummy'', n_GUID = default_guid, n_client = True\<rparr>,
    test_request)"
  using
    connect_failure_state
      [where n = "\<lparr>n_URL = ''http://127.0.0.1'', n_License = '''', n_GUID = '''',
                    n_client = False\<rparr>"
        and h = "(''testhostname'', None)" and pid = 42 and request = test_request]
    connect_failure_state
      [where n = "\<lparr>n_URL = '''', n_License = ''dummy'', n_GUID = '''', n_client = False\<rparr>"
        and h = "('''', Some ''no hostname'')" and pid = 42 and request = test_request
        and err = "''no hostname''"]
  by simp

end
